theory Spec2Isabelle
  imports Complex_Main "HOL-Library.AList" "HOL-Library.Char_ord" "HOL-Library.List_Lexorder"
    "HOL-Library.Product_Lexorder"
begin

section \<open>Strings: \<open>str.lower\<close>, \<open>str.count\<close>, \<open>str.split\<close> and SQLite's \<open>LIKE\<close>\<close>

text \<open>
  Text is modelled as \<open>string\<close>, a list of 8-bit characters, and the model is that of
  ASCII text: one character is one byte, and case folding is the one of the ASCII
  letters, which is what SQLite's \<open>LIKE\<close> does and what \<open>str.lower\<close> does on ASCII text.
  For text outside ASCII the code behaves differently (\<open>str.lower\<close> folds Unicode
  letters, \<open>LIKE\<close> does not, and \<open>_\<close> matches a whole UTF-8 character): nothing below is
  stated about such text. Python's \<open>float\<close> is modelled as \<open>real\<close> (exact arithmetic, no
  rounding, so two scores can tie in one and not in the other) and Python's \<open>int\<close> as
  \<open>int\<close>.
\<close>

definition ascii_lower :: "char \<Rightarrow> char" where
  "ascii_lower c =
     (let n = (of_char c :: nat) in if 65 \<le> n \<and> n \<le> 90 then char_of (n + 32) else c)"

definition py_lower :: "string \<Rightarrow> string" where
  "py_lower s = map ascii_lower s"

text \<open>
  \<open>text.count(sub)\<close>: the number of non-overlapping occurrences of \<open>sub\<close>, scanning
  from the left; for the empty \<open>sub\<close> Python returns \<open>len(text) + 1\<close>.
\<close>

function count_nonempty :: "string \<Rightarrow> string \<Rightarrow> nat" where
  "count_nonempty sub [] = 0"
| "count_nonempty sub (c # cs) =
     (if sub \<noteq> [] \<and> take (length sub) (c # cs) = sub
      then Suc (count_nonempty sub (drop (length sub) (c # cs)))
      else count_nonempty sub cs)"
  by pat_completeness auto
termination
  by (relation "measure (\<lambda>(sub, t). length t)") auto

definition py_count :: "string \<Rightarrow> string \<Rightarrow> nat" where
  "py_count t sub = (if sub = [] then length t + 1 else count_nonempty sub t)"

text \<open>
  SQLite's \<open>text LIKE pattern\<close> in its default configuration: \<open>%\<close> matches any
  sequence of characters, \<open>_\<close> matches any single character, every other character
  matches itself up to the case of ASCII letters; there is no escape character.
\<close>

fun like_match :: "string \<Rightarrow> string \<Rightarrow> bool" where
  "like_match [] t = (t = [])"
| "like_match (p # ps) [] = (p = CHR ''%'' \<and> like_match ps [])"
| "like_match (p # ps) (c # cs) =
     (if p = CHR ''%'' then like_match ps (c # cs) \<or> like_match (p # ps) cs
      else (p = CHR ''_'' \<or> ascii_lower p = ascii_lower c) \<and> like_match ps cs)"

text \<open>
  \<open>LIKE\<close> reads the pattern and the text as C strings: both end at their first NUL
  character. A nullable \<open>TEXT\<close> column: \<open>NULL LIKE pattern\<close> is not true.
\<close>

definition c_string :: "string \<Rightarrow> string" where
  "c_string s = takeWhile (\<lambda>c. (of_char c :: nat) \<noteq> 0) s"

definition sql_like :: "string option \<Rightarrow> string \<Rightarrow> bool" where
  "sql_like col pat =
     (case col of None \<Rightarrow> False | Some t \<Rightarrow> like_match (c_string pat) (c_string t))"

section \<open>Python slices and SQL \<open>LIMIT\<close>/\<open>OFFSET\<close>\<close>

text \<open>\<open>xs[a:b]\<close> for Python integers: a negative bound counts from the end, both are clipped.\<close>

definition py_bound :: "nat \<Rightarrow> int \<Rightarrow> nat" where
  "py_bound n a = (if a < 0 then nat (int n + a) else min (nat a) n)"

definition py_slice :: "'a list \<Rightarrow> int \<Rightarrow> int \<Rightarrow> 'a list" where
  "py_slice xs a b =
     (let lo = py_bound (length xs) a; hi = py_bound (length xs) b
      in take (hi - lo) (drop lo xs))"

text \<open>
  SQLite's \<open>LIMIT l OFFSET o\<close>: a negative limit means no limit, a negative offset is
  taken as zero.
\<close>

definition sql_limit :: "int \<Rightarrow> int \<Rightarrow> 'a list \<Rightarrow> 'a list" where
  "sql_limit l off xs = (let ys = drop (nat off) xs in if l < 0 then ys else take (nat l) ys)"

section \<open>The notes store\<close>

text \<open>
  The tables of \<open>database_manager.py\<close> that the search engine reads, each a list of rows
  in storage order. \<open>Ideas.id\<close> is the primary key of \<open>Ideas\<close>; timestamps are numbers.
  The store is data: a query on it always answers. What SQLite refuses (a \<open>LIKE\<close> pattern
  above its length limit, an integer parameter beyond 64 bits) and every other database
  failure is not modelled.
\<close>

record idea_row =
  idea_id :: int
  content :: string
  title :: "string option"
  created_at :: int
  updated_at :: int
  is_archived :: bool
  is_favorite :: bool

record tag_row =
  tag_id :: int
  tag_name :: string

record relation_row =
  source_idea_id :: int
  target_idea_id :: int
  confidence :: real

record database =
  Ideas :: "idea_row list"
  Tags :: "tag_row list"
  IdeaTags :: "(int \<times> int) list"
  Relations :: "relation_row list"

text \<open>
  \<open>list.sort(key, reverse=True)\<close>: descending, ties keep their order. The same function
  stands for \<open>ORDER BY key DESC\<close> where the query goes through SQLite's sorter; SQL leaves
  the order of rows with equal keys open, the model keeps them in table order, and no
  statement below depends on the order of such rows.
\<close>

definition sort_desc :: "('a \<Rightarrow> 'k::{linorder,uminus}) \<Rightarrow> 'a list \<Rightarrow> 'a list" where
  "sort_desc key xs = sort_key (\<lambda>x. - key x) xs"

text \<open>
  \<open>IdeaManager.get_idea_tags\<close>:
  \<open>SELECT t.* FROM Tags t JOIN IdeaTags it ON t.id = it.tag_id WHERE it.idea_id = ? ORDER BY t.name\<close>.
\<close>

definition get_idea_tags :: "database \<Rightarrow> int \<Rightarrow> tag_row list" where
  "get_idea_tags d i =
     sort_key tag_name
       (concat (map (\<lambda>t. map (\<lambda>it. t) (filter (\<lambda>it. fst it = i \<and> snd it = tag_id t) (IdeaTags d)))
                    (Tags d)))"

text \<open>
  \<open>IdeaManager.get_idea\<close>: \<open>SELECT * FROM Ideas WHERE id = ?\<close>, the first row, with
  its tags attached; \<open>None\<close> when there is no such idea. (Keywords, relations and
  reminders are attached too; nothing in the search engine reads them.)
\<close>

record idea =
  row :: idea_row
  tags :: "tag_row list"

definition get_idea :: "database \<Rightarrow> int \<Rightarrow> idea option" where
  "get_idea d i =
     (case find (\<lambda>r. idea_id r = i) (Ideas d) of
        None \<Rightarrow> None
      | Some r \<Rightarrow> Some \<lparr>row = r, tags = get_idea_tags d i\<rparr>)"

text \<open>
  A search result is an idea with its tags, its \<open>relevance\<close> and, after a hybrid merge,
  its \<open>search_source\<close> (\<open>None\<close> while the key is absent).
\<close>

record search_result = idea +
  relevance :: real
  search_source :: "string option"

section \<open>Lexical retrieval: \<open>SearchEngine._keyword_search\<close>\<close>

text \<open>
  The \<open>filters\<close> dictionary: a key that is absent is \<open>None\<close>.
\<close>

record filters =
  f_is_archived :: "bool option"
  f_is_favorite :: "bool option"
  f_tag_ids :: "int list option"

definition no_filters :: filters where
  "no_filters = \<lparr>f_is_archived = None, f_is_favorite = None, f_tag_ids = None\<rparr>"

text \<open>\<open>"tag_ids" in filters and filters["tag_ids"]\<close>: the key is there and its list is not empty.\<close>

definition has_tag_filter :: "filters \<Rightarrow> bool" where
  "has_tag_filter f = (case f_tag_ids f of None \<Rightarrow> False | Some ts \<Rightarrow> ts \<noteq> [])"

text \<open>
  The \<open>WHERE\<close> clause that \<open>_keyword_search\<close> builds:
  \<open>(content LIKE %q% OR title LIKE %q%)\<close>, then one conjunct for each filter present;
  the tag conjunct is \<open>id IN (SELECT idea_id FROM IdeaTags WHERE tag_id IN (...))\<close>.
\<close>

definition keyword_where :: "database \<Rightarrow> string \<Rightarrow> filters \<Rightarrow> idea_row \<Rightarrow> bool" where
  "keyword_where d query f r =
     (let pat = CHR ''%'' # query @ [CHR ''%''] in
      (sql_like (Some (content r)) pat \<or> sql_like (title r) pat)
      \<and> (case f_is_archived f of None \<Rightarrow> True | Some b \<Rightarrow> is_archived r = b)
      \<and> (case f_is_favorite f of None \<Rightarrow> True | Some b \<Rightarrow> is_favorite r = b)
      \<and> (if has_tag_filter f
          then idea_id r \<in> set (map fst (filter (\<lambda>it. snd it \<in> set (the (f_tag_ids f))) (IdeaTags d)))
          else True))"

text \<open>\<open>_calculate_keyword_relevance\<close>.\<close>

definition calculate_keyword_relevance :: "idea_row \<Rightarrow> string \<Rightarrow> real" where
  "calculate_keyword_relevance r query =
     (let query_lower = py_lower query;
          content_lower = py_lower (content r);
          title_lower = (case title r of None \<Rightarrow> [] | Some t \<Rightarrow> if t = [] then [] else py_lower t);
          content_count = py_count content_lower query_lower;
          title_count = py_count title_lower query_lower;
          score = real content_count * (1 / 10) + real title_count * (1 / 2)
      in min 1 score)"

text \<open>
  \<open>_keyword_search\<close>: the rows selected, \<open>ORDER BY created_at DESC LIMIT ? OFFSET ?\<close>,
  each given its tags and its relevance, then sorted by relevance, highest first.
  SQLite answers the \<open>ORDER BY\<close> by a backward scan of the index
  \<open>idx_ideas_created_at\<close>, which gives rows of equal \<open>created_at\<close> by descending id;
  the model orders them so.
\<close>

definition keyword_search :: "database \<Rightarrow> string \<Rightarrow> int \<Rightarrow> int \<Rightarrow> filters \<Rightarrow> search_result list" where
  "keyword_search d query limit offset f =
     (let ideas = sql_limit limit offset
                    (sort_key (\<lambda>r. (- created_at r, - idea_id r))
                       (filter (keyword_where d query f) (Ideas d)));
          ideas = map (\<lambda>r. \<lparr>row = r, tags = get_idea_tags d (idea_id r),
                               relevance = calculate_keyword_relevance r query,
                               search_source = None\<rparr>) ideas
      in sort_desc relevance ideas)"

section \<open>The vector index: \<open>VectorDBManager.search_similar_ideas\<close>\<close>

text \<open>
  The ChromaDB collection is an external service. It is a parameter of the model: a
  function from the query text, the number of results asked for and the metadata
  filter (\<open>where\<close>) to either an exception or the result dictionary, of which
  \<open>search_similar_ideas\<close> reads \<open>ids\<close> and \<open>distances\<close>. The ids of the collection
  are \<open>str(idea_id)\<close>; the model keeps them as the integers \<open>int(idea_id)\<close> reads back.
\<close>

datatype py_exception = ChromaError | IndexError

record query_result =
  ids :: "int list list"
  distances :: "real list list option"

type_synonym collection = "string \<Rightarrow> int \<Rightarrow> (string \<times> int) list option \<Rightarrow> py_exception + query_result"

record similar =
  similar_id :: int
  distance :: "real option"

text \<open>\<open>results["distances"][0][i] if results["distances"] else None\<close>.\<close>

definition distance_at :: "real list list option \<Rightarrow> nat \<Rightarrow> py_exception + real option" where
  "distance_at ds i =
     (case ds of
        None \<Rightarrow> Inr None
      | Some [] \<Rightarrow> Inr None
      | Some (d0 # _) \<Rightarrow> if i < length d0 then Inr (Some (d0 ! i)) else Inl IndexError)"

fun similar_rows :: "real list list option \<Rightarrow> nat \<Rightarrow> int list \<Rightarrow> py_exception + similar list" where
  "similar_rows ds i [] = Inr []"
| "similar_rows ds i (x # xs) =
     (case distance_at ds i of
        Inl e \<Rightarrow> Inl e
      | Inr dv \<Rightarrow>
          (case similar_rows ds (Suc i) xs of
             Inl e \<Rightarrow> Inl e
           | Inr rest \<Rightarrow> Inr (\<lparr>similar_id = x, distance = dv\<rparr> # rest)))"

definition search_similar_ideas ::
  "collection \<Rightarrow> string \<Rightarrow> int \<Rightarrow> (string \<times> int) list option \<Rightarrow> py_exception + similar list" where
  "search_similar_ideas coll query n_results filter_metadata =
     (case coll query n_results filter_metadata of
        Inl e \<Rightarrow> Inl e
      | Inr results \<Rightarrow>
          (case ids results of
             [] \<Rightarrow> Inr []
           | ids0 # _ \<Rightarrow> similar_rows (distances results) 0 ids0))"

section \<open>Vector retrieval: \<open>SearchEngine._vector_search\<close>\<close>

record config =
  ai_enabled :: bool
  offline_mode :: bool

record env =
  cfg :: config
  db :: database
  ideas_embeddings :: collection

definition bool_int :: "bool \<Rightarrow> int" where
  "bool_int b = (if b then 1 else 0)"

definition metadata_filter_of :: "filters \<Rightarrow> (string \<times> int) list option" where
  "metadata_filter_of f =
     (let m = (case f_is_archived f of None \<Rightarrow> [] | Some b \<Rightarrow> [(''is_archived'', bool_int b)]);
          m = (case f_is_favorite f of None \<Rightarrow> m | Some b \<Rightarrow> AList.update ''is_favorite'' (bool_int b) m)
      in if m = [] then None else Some m)"

text \<open>\<open>1.0 - (similar["distance"] or 0.0)\<close>: a missing distance counts as \<open>0.0\<close>.\<close>

definition distance_relevance :: "real option \<Rightarrow> real" where
  "distance_relevance dv = 1 - (case dv of None \<Rightarrow> 0 | Some x \<Rightarrow> x)"

text \<open>
  The loop over the hits of the index: an id with no idea in the store is skipped; with a
  tag filter, an idea that does not carry every requested tag is skipped
  (\<open>tag_ids.issubset(idea_tag_ids)\<close>).
\<close>

fun vector_hits :: "database \<Rightarrow> filters \<Rightarrow> similar list \<Rightarrow> search_result list" where
  "vector_hits d f [] = []"
| "vector_hits d f (s # ss) =
     (case get_idea d (similar_id s) of
        None \<Rightarrow> vector_hits d f ss
      | Some idea \<Rightarrow>
          (if has_tag_filter f \<and> \<not> set (the (f_tag_ids f)) \<subseteq> set (map tag_id (tags idea))
           then vector_hits d f ss
           else \<lparr>row = row idea, tags = tags idea, relevance = distance_relevance (distance s),
                  search_source = None\<rparr> # vector_hits d f ss))"

text \<open>
  \<open>_vector_search\<close>. With AI disabled or in offline mode it is the keyword search. Otherwise
  the body runs inside \<open>try\<close>: the index is asked for \<open>limit + offset\<close> results, the page
  \<open>[offset:offset + limit]\<close> is cut out and looked up; on any exception (in the model:
  one raised by \<open>search_similar_ideas\<close>) the \<open>except\<close> branch returns the keyword search.
\<close>

definition vector_search :: "env \<Rightarrow> string \<Rightarrow> int \<Rightarrow> int \<Rightarrow> filters \<Rightarrow> search_result list" where
  "vector_search e query limit offset f =
     (if \<not> ai_enabled (cfg e) \<or> offline_mode (cfg e) then keyword_search (db e) query limit offset f
      else
        (case search_similar_ideas (ideas_embeddings e) query (limit + offset) (metadata_filter_of f) of
           Inl ex \<Rightarrow> keyword_search (db e) query limit offset f
         | Inr similar_ideas \<Rightarrow>
             vector_hits (db e) f (py_slice similar_ideas offset (offset + limit))))"

section \<open>Hybrid merge: \<open>SearchEngine._hybrid_search\<close>\<close>

text \<open>
  \<open>merged_results\<close> is a Python dictionary from idea id to result; \<open>list(d.values())\<close>
  is in insertion order, and assigning to a key that is present keeps its place. It is
  modelled as an association list with \<open>AList.update\<close>, which does exactly that.
\<close>

fun add_keyword_results :: "search_result list \<Rightarrow> (int \<times> search_result) list \<Rightarrow> (int \<times> search_result) list" where
  "add_keyword_results [] m = m"
| "add_keyword_results (idea # rest) m =
     add_keyword_results rest
       (AList.update (idea_id (row idea)) (idea\<lparr>search_source := Some ''keyword''\<rparr>) m)"

fun add_vector_results :: "search_result list \<Rightarrow> (int \<times> search_result) list \<Rightarrow> (int \<times> search_result) list" where
  "add_vector_results [] m = m"
| "add_vector_results (idea # rest) m =
     add_vector_results rest
       (case map_of m (idea_id (row idea)) of
          Some old \<Rightarrow>
            AList.update (idea_id (row idea))
              (old\<lparr>relevance := max (relevance old) (relevance idea),
                   search_source := Some ''both''\<rparr>) m
        | None \<Rightarrow> AList.update (idea_id (row idea)) (idea\<lparr>search_source := Some ''vector''\<rparr>) m)"

definition merge_results :: "search_result list \<Rightarrow> search_result list \<Rightarrow> (int \<times> search_result) list" where
  "merge_results keyword_results vector_results =
     add_vector_results vector_results (add_keyword_results keyword_results [])"

text \<open>
  \<open>_hybrid_search\<close>. With AI disabled or in offline mode it is the keyword search. Otherwise
  both searches run with \<open>limit\<close> and offset \<open>0\<close>, their results are merged, sorted by
  relevance (highest first, ties in dictionary order) and the page is cut out. The body
  stands in a \<open>try\<close> whose \<open>except\<close> branch returns the keyword search; nothing in the
  body raises in this model, since the store always answers and \<open>_vector_search\<close> catches
  the exceptions of the index itself.
\<close>

definition hybrid_search :: "env \<Rightarrow> string \<Rightarrow> int \<Rightarrow> int \<Rightarrow> filters \<Rightarrow> search_result list" where
  "hybrid_search e query limit offset f =
     (if \<not> ai_enabled (cfg e) \<or> offline_mode (cfg e) then keyword_search (db e) query limit offset f
      else
        (let keyword_results = keyword_search (db e) query limit 0 f;
             vector_results = vector_search e query limit 0 f;
             merged_results = merge_results keyword_results vector_results;
             results = sort_desc relevance (map snd merged_results)
         in py_slice results offset (offset + limit)))"

text \<open>\<open>SearchEngine.search\<close>: an empty query finds nothing; no \<open>filters\<close> means the empty dictionary.\<close>

definition search :: "env \<Rightarrow> string \<Rightarrow> string \<Rightarrow> int \<Rightarrow> int \<Rightarrow> filters option \<Rightarrow> search_result list" where
  "search e query search_type limit offset filters =
     (if query = [] then []
      else
        (let f = (case filters of None \<Rightarrow> no_filters | Some f \<Rightarrow> f) in
         if search_type = ''keyword'' then keyword_search (db e) query limit offset f
         else if search_type = ''vector'' then vector_search e query limit offset f
         else hybrid_search e query limit offset f))"

section \<open>Related ideas: \<open>SearchEngine.get_related_ideas\<close>\<close>

text \<open>
  Tier 1, the curated relations:
  \<open>SELECT i.* FROM Ideas i JOIN Relations r ON i.id = r.target_idea_id
    WHERE r.source_idea_id = ? ORDER BY r.confidence DESC LIMIT ?\<close>.
  One row for each relation edge whose target is in the store.
\<close>

definition related_from_relations :: "database \<Rightarrow> int \<Rightarrow> int \<Rightarrow> idea_row list" where
  "related_from_relations d i limit =
     sql_limit limit 0
       (concat (map (\<lambda>r. filter (\<lambda>x. idea_id x = target_idea_id r) (Ideas d))
                    (sort_desc confidence (filter (\<lambda>r. source_idea_id r = i) (Relations d)))))"

text \<open>
  Tier 2, the neighbours the index reports: the idea itself is dropped, at most
  \<open>remaining\<close> are kept, and those with an idea in the store are looked up.
\<close>

definition vector_related :: "database \<Rightarrow> int \<Rightarrow> int \<Rightarrow> similar list \<Rightarrow> idea_row list" where
  "vector_related d i remaining similar_ideas =
     List.map_filter (\<lambda>s. map_option row (get_idea d (similar_id s)))
       (py_slice (filter (\<lambda>s. similar_id s \<noteq> i) similar_ideas) 0 remaining)"

text \<open>
  Tier 3, the tag overlap:
  \<open>SELECT i.*, COUNT(it.tag_id) as tag_count FROM Ideas i JOIN IdeaTags it ON i.id = it.idea_id
    WHERE it.tag_id IN (tags of the idea) AND i.id != ? AND i.id NOT IN (tier 1 ids)
    GROUP BY i.id ORDER BY tag_count DESC, i.created_at DESC LIMIT remaining\<close>.
  The two sort keys are compared as a pair, first component first.
\<close>

definition tag_count :: "database \<Rightarrow> int list \<Rightarrow> idea_row \<Rightarrow> nat" where
  "tag_count d tag_ids x =
     length (filter (\<lambda>it. fst it = idea_id x \<and> snd it \<in> set tag_ids) (IdeaTags d))"

definition tag_rank :: "database \<Rightarrow> int list \<Rightarrow> idea_row \<Rightarrow> int \<times> int" where
  "tag_rank d tag_ids x = (int (tag_count d tag_ids x), created_at x)"

definition tag_candidates :: "database \<Rightarrow> int \<Rightarrow> int list \<Rightarrow> int list \<Rightarrow> idea_row list" where
  "tag_candidates d i tag_ids excluded =
     sort_key (\<lambda>x. (- fst (tag_rank d tag_ids x), - snd (tag_rank d tag_ids x)))
       (filter (\<lambda>x. 0 < tag_count d tag_ids x \<and> idea_id x \<noteq> i \<and> idea_id x \<notin> set excluded)
               (Ideas d))"

text \<open>The order of that \<open>ORDER BY\<close>: more shared tags first, then the later \<open>created_at\<close>.\<close>

definition ranked_before :: "database \<Rightarrow> int list \<Rightarrow> idea_row \<Rightarrow> idea_row \<Rightarrow> bool" where
  "ranked_before d tag_ids x y =
     (tag_count d tag_ids y < tag_count d tag_ids x
      \<or> (tag_count d tag_ids x = tag_count d tag_ids y \<and> created_at y \<le> created_at x))"

definition tag_results :: "database \<Rightarrow> int \<Rightarrow> idea_row list \<Rightarrow> int \<Rightarrow> int \<Rightarrow> idea_row list" where
  "tag_results d i related remaining limit =
     (let idea_tags = get_idea_tags d i in
      if idea_tags = [] then related
      else
        (let tag_ids = map tag_id idea_tags;
             rows = sql_limit remaining 0 (tag_candidates d i tag_ids (map idea_id related))
         in py_slice (related @ rows) 0 limit))"

text \<open>
  \<open>get_related_ideas\<close>. The result rows are the \<open>Ideas\<close> rows; the tags, keywords,
  relations and reminders the source attaches to some of them are left out.
\<close>

definition get_related_ideas :: "env \<Rightarrow> int \<Rightarrow> int \<Rightarrow> idea_row list" where
  "get_related_ideas e i limit =
     (case get_idea (db e) i of
        None \<Rightarrow> []
      | Some idea \<Rightarrow>
          (let related = related_from_relations (db e) i limit in
           if limit \<le> int (length related) then py_slice related 0 limit
           else
             (let remaining = limit - int (length related) in
              if ai_enabled (cfg e) \<and> \<not> offline_mode (cfg e) then
                (case search_similar_ideas (ideas_embeddings e) (content (row idea)) (remaining + 1) None of
                   Inr similar_ideas \<Rightarrow>
                     py_slice (related @ vector_related (db e) i remaining similar_ideas) 0 limit
                 | Inl ex \<Rightarrow> tag_results (db e) i related remaining limit)
              else tag_results (db e) i related remaining limit)))"

section \<open>The embedding facade: \<open>EmbeddingGenerator.generate_embedding\<close>\<close>

text \<open>
  \<open>str.split()\<close> with no argument: the maximal runs of characters that are not white space.
\<close>

definition is_space :: "char \<Rightarrow> bool" where
  "is_space c = (let n = (of_char c :: nat) in (9 \<le> n \<and> n \<le> 13) \<or> (28 \<le> n \<and> n \<le> 32))"

fun split_from :: "string \<Rightarrow> string \<Rightarrow> string list" where
  "split_from cur [] = (if cur = [] then [] else [cur])"
| "split_from cur (c # cs) =
     (if is_space c then (if cur = [] then split_from [] cs else cur # split_from [] cs)
      else split_from (cur @ [c]) cs)"

definition py_split :: "string \<Rightarrow> string list" where
  "py_split s = split_from [] s"

text \<open>
  \<open>_generate_fallback_embedding\<close>: the bag of words of the text, normalised, padded with
  zeros or cut to 1536 entries. Python's \<open>set(words)\<close> has no fixed order; the model
  takes the distinct words in the order of \<open>remdups\<close>.
\<close>

definition generate_fallback_embedding :: "string \<Rightarrow> real list" where
  "generate_fallback_embedding t =
     (let words = py_split (py_lower t);
          word_set = remdups words;
          vector = map (\<lambda>w. real (count_list words w)) word_set;
          norm = sqrt (sum_list (map (\<lambda>v. v * v) vector));
          vector = (if 0 < norm then map (\<lambda>v. v / norm) vector else vector);
          embedding_dim = 1536
      in if length vector < embedding_dim
         then vector @ replicate (embedding_dim - length vector) 0
         else take embedding_dim vector)"

text \<open>
  \<open>generate_embedding\<close>. The remote provider (\<open>AIService.generate_embedding\<close>) is a
  parameter: it answers a vector, or \<open>None\<close> when it is unavailable or fails.
\<close>

definition generate_embedding :: "(string \<Rightarrow> real list option) \<Rightarrow> string \<Rightarrow> real list option" where
  "generate_embedding ai_service t =
     (if t = [] then None
      else
        (case ai_service t of
           None \<Rightarrow> Some (generate_fallback_embedding t)
         | Some embedding \<Rightarrow> Some embedding))"

section \<open>Example stores and indexes\<close>

definition result_id :: "search_result \<Rightarrow> int" where
  "result_id x = idea_id (row x)"

definition mk_idea :: "int \<Rightarrow> string \<Rightarrow> string \<Rightarrow> int \<Rightarrow> idea_row" where
  "mk_idea i t c ts =
     \<lparr>idea_id = i, content = c, title = Some t, created_at = ts, updated_at = ts,
      is_archived = False, is_favorite = False\<rparr>"

text \<open>An index that answers the first \<open>n_results\<close> entries of a fixed ranking, whatever the query.\<close>

definition fixed_index :: "(int \<times> real) list \<Rightarrow> collection" where
  "fixed_index hits query n_results filter_metadata =
     Inr \<lparr>ids = [take (nat n_results) (map fst hits)],
          distances = Some [take (nat n_results) (map snd hits)]\<rparr>"

definition failing_index :: collection where
  "failing_index query n_results filter_metadata = Inl ChromaError"

definition online :: config where
  "online = \<lparr>ai_enabled = True, offline_mode = False\<rparr>"

definition ai_off :: config where
  "ai_off = \<lparr>ai_enabled = False, offline_mode = False\<rparr>"

definition rust_go_db :: database where
  "rust_go_db =
     \<lparr>Ideas = [mk_idea 1 ''Rust'' ''ownership model'' 1, mk_idea 2 ''Go'' ''goroutines'' 2],
      Tags = [], IdeaTags = [], Relations = []\<rparr>"

definition paging_db :: database where
  "paging_db =
     \<lparr>Ideas = [mk_idea 1 ''t'' ''aaaa'' 1, mk_idea 2 ''t'' ''aaa'' 2, mk_idea 3 ''t'' ''aa'' 3,
               mk_idea 4 ''t'' ''a'' 4, mk_idea 5 ''t'' ''b'' 5],
      Tags = [], IdeaTags = [], Relations = []\<rparr>"

definition paging_env :: env where
  "paging_env = \<lparr>cfg = online, db = paging_db, ideas_embeddings = fixed_index [(5, 1 / 2)]\<rparr>"

definition tagged_db :: database where
  "tagged_db =
     \<lparr>Ideas = [mk_idea 1 ''t'' ''a'' 1],
      Tags = [\<lparr>tag_id = 1, tag_name = ''x''\<rparr>, \<lparr>tag_id = 2, tag_name = ''y''\<rparr>],
      IdeaTags = [(1, 1)], Relations = []\<rparr>"

definition tagged_env :: env where
  "tagged_env = \<lparr>cfg = online, db = tagged_db, ideas_embeddings = fixed_index [(1, 1 / 4)]\<rparr>"

definition both_tags :: filters where
  "both_tags = \<lparr>f_is_archived = None, f_is_favorite = None, f_tag_ids = Some [1, 2]\<rparr>"

definition far_env :: env where
  "far_env = \<lparr>cfg = online, db = tagged_db, ideas_embeddings = fixed_index [(1, 3 / 2)]\<rparr>"

definition down_env :: env where
  "down_env = \<lparr>cfg = online, db = tagged_db, ideas_embeddings = failing_index\<rparr>"

definition offline_env :: env where
  "offline_env = \<lparr>cfg = ai_off, db = tagged_db, ideas_embeddings = fixed_index [(1, 1 / 4)]\<rparr>"

definition related_db :: database where
  "related_db =
     \<lparr>Ideas = [mk_idea 5 ''t'' ''a'' 1, mk_idea 6 ''t'' ''b'' 2, mk_idea 7 ''t'' ''c'' 3, mk_idea 8 ''t'' ''d'' 4],
      Tags = [\<lparr>tag_id = 1, tag_name = ''x''\<rparr>, \<lparr>tag_id = 2, tag_name = ''y''\<rparr>],
      IdeaTags = [(5, 1), (5, 2), (7, 1), (8, 1), (8, 2), (6, 1)],
      Relations = [\<lparr>source_idea_id = 5, target_idea_id = 6, confidence = 9 / 10\<rparr>]\<rparr>"

definition neighbour_env :: env where
  "neighbour_env =
     \<lparr>cfg = online, db = related_db,
      ideas_embeddings = fixed_index [(5, 0), (7, 1 / 4), (8, 1 / 2)]\<rparr>"

definition related_env :: env where
  "related_env =
     \<lparr>cfg = online, db = related_db, ideas_embeddings = fixed_index [(5, 0), (6, 1 / 4)]\<rparr>"

definition quiet_env :: env where
  "quiet_env = \<lparr>cfg = online, db = related_db, ideas_embeddings = fixed_index []\<rparr>"

definition related_off_env :: env where
  "related_off_env = \<lparr>cfg = ai_off, db = related_db, ideas_embeddings = fixed_index []\<rparr>"

text \<open>
  The ids of a ChromaDB collection are unique, so one answer holds each id at most once.
\<close>

definition index_ids_distinct :: "collection \<Rightarrow> bool" where
  "index_ids_distinct coll =
     (\<forall>query n_results filter_metadata results.
        coll query n_results filter_metadata = Inr results \<longrightarrow> (\<forall>l \<in> set (ids results). distinct l))"

text \<open>An index whose reported distances all lie between 0 and 1.\<close>

definition index_distances_in_unit :: "collection \<Rightarrow> bool" where
  "index_distances_in_unit coll =
     (\<forall>query n_results filter_metadata results ds l x.
        coll query n_results filter_metadata = Inr results \<longrightarrow> distances results = Some ds \<longrightarrow>
        l \<in> set ds \<longrightarrow> x \<in> set l \<longrightarrow> 0 \<le> x \<and> x \<le> 1)"

definition unit_score :: "search_result \<Rightarrow> bool" where
  "unit_score x = (0 \<le> relevance x \<and> relevance x \<le> 1)"

text \<open>A store where the idea created last is not the idea updated last.\<close>

definition recency_db :: database where
  "recency_db =
     \<lparr>Ideas = [mk_idea 5 ''t'' ''a'' 1, (mk_idea 7 ''t'' ''c'' 3)\<lparr>updated_at := 9\<rparr>,
               mk_idea 8 ''t'' ''d'' 4],
      Tags = [\<lparr>tag_id = 1, tag_name = ''x''\<rparr>],
      IdeaTags = [(5, 1), (7, 1), (8, 1)],
      Relations = []\<rparr>"

definition recency_env :: env where
  "recency_env = \<lparr>cfg = ai_off, db = recency_db, ideas_embeddings = fixed_index []\<rparr>"

definition percent_db :: database where
  "percent_db =
     \<lparr>Ideas = [mk_idea 1 ''t'' ''50'' 1], Tags = [], IdeaTags = [], Relations = []\<rparr>"

definition no_provider :: "string \<Rightarrow> real list option" where
  "no_provider t = None"

section \<open>Slices, limits and sorting keep the elements they are given\<close>

lemma set_py_slice: "set (py_slice xs a b) \<subseteq> set xs"
  unfolding py_slice_def Let_def
  by (meson set_take_subset set_drop_subset subset_trans)

lemma set_sql_limit: "set (sql_limit l off xs) \<subseteq> set xs"
  unfolding sql_limit_def Let_def
  by (auto dest: in_set_takeD in_set_dropD)

lemma set_sort_desc [simp]: "set (sort_desc k xs) = set xs"
  by (simp add: sort_desc_def)

section \<open>The hybrid merge\<close>

lemma distinct_map_sort_key: "distinct (map f (sort_key k xs)) = distinct (map f xs)"
  by (simp add: distinct_map)

lemma distinct_map_sort_desc: "distinct (map f (sort_desc k xs)) = distinct (map f xs)"
  by (simp add: sort_desc_def distinct_map_sort_key)

lemma distinct_map_sql_limit: "distinct (map f xs) \<Longrightarrow> distinct (map f (sql_limit l off xs))"
  by (simp add: sql_limit_def Let_def take_map [symmetric] drop_map [symmetric])

lemma distinct_map_py_slice: "distinct (map f xs) \<Longrightarrow> distinct (map f (py_slice xs a b))"
  by (simp add: py_slice_def Let_def take_map [symmetric] drop_map [symmetric])

lemma distinct_keyword_search:
  assumes "distinct (map idea_id (Ideas d))"
  shows "distinct (map result_id (keyword_search d query limit offset f))"
proof -
  let ?rows = "sql_limit limit offset
                 (sort_key (\<lambda>r. (- created_at r, - idea_id r))
                    (filter (keyword_where d query f) (Ideas d)))"
  have "distinct (map idea_id (filter (keyword_where d query f) (Ideas d)))"
    using assms by (simp add: distinct_map_filter)
  then have "distinct (map idea_id ?rows)"
    by (simp add: distinct_map_sql_limit distinct_map_sort_key)
  then show ?thesis
    by (simp add: keyword_search_def Let_def distinct_map_sort_desc comp_def result_id_def)
qed

lemma get_idea_id: "get_idea d i = Some x \<Longrightarrow> idea_id (row x) = i"
  by (auto simp: get_idea_def find_Some_iff split: option.splits)

lemma vector_hits_ids: "result_id ` set (vector_hits d f ss) \<subseteq> similar_id ` set ss"
  by (induction ss) (auto simp: result_id_def dest: get_idea_id split: option.splits)

lemma distinct_vector_hits:
  "distinct (map similar_id ss) \<Longrightarrow> distinct (map result_id (vector_hits d f ss))"
proof (induction ss)
  case Nil
  then show ?case by simp
next
  case (Cons s ss)
  have "similar_id s \<notin> result_id ` set (vector_hits d f ss)"
    using Cons.prems vector_hits_ids [of d f ss] by auto
  with Cons show ?case
    by (auto simp: result_id_def dest: get_idea_id split: option.splits)
qed

lemma similar_rows_ids: "similar_rows ds i xs = Inr rows \<Longrightarrow> map similar_id rows = xs"
  by (induction xs arbitrary: i rows) (auto split: sum.splits)

lemma distinct_search_similar_ideas:
  assumes "index_ids_distinct coll" and "search_similar_ideas coll query n m = Inr rows"
  shows "distinct (map similar_id rows)"
proof (cases "coll query n m")
  case (Inl ex)
  with assms(2) show ?thesis by (simp add: search_similar_ideas_def)
next
  case (Inr results)
  show ?thesis
  proof (cases "ids results")
    case Nil
    with Inr assms(2) show ?thesis by (simp add: search_similar_ideas_def)
  next
    case (Cons ids0 rest)
    with Inr assms(2) have "map similar_id rows = ids0"
      by (simp add: search_similar_ideas_def similar_rows_ids)
    moreover have "distinct ids0"
      using assms(1) Inr Cons by (auto simp: index_ids_distinct_def)
    ultimately show ?thesis by simp
  qed
qed

lemma distinct_vector_search:
  assumes "distinct (map idea_id (Ideas (db e)))" and "index_ids_distinct (ideas_embeddings e)"
  shows "distinct (map result_id (vector_search e query limit offset f))"
proof (cases "search_similar_ideas (ideas_embeddings e) query (limit + offset) (metadata_filter_of f)")
  case (Inl ex)
  then show ?thesis
    using assms(1) by (simp add: vector_search_def distinct_keyword_search)
next
  case (Inr rows)
  then have "distinct (map similar_id rows)"
    using assms(2) by (rule distinct_search_similar_ideas [rotated])
  then show ?thesis
    using Inr assms(1)
    by (simp add: vector_search_def distinct_keyword_search distinct_vector_hits distinct_map_py_slice)
qed


lemma distinct_keys_add_keyword:
  "distinct (map fst m) \<Longrightarrow> distinct (map fst (add_keyword_results kw m))"
  by (induction kw arbitrary: m) (simp_all add: distinct_update)

lemma distinct_keys_add_vector:
  "distinct (map fst m) \<Longrightarrow> distinct (map fst (add_vector_results vec m))"
  by (induction vec arbitrary: m) (simp_all add: distinct_update split: option.splits)

lemma map_of_add_keyword_other:
  "i \<notin> result_id ` set kw \<Longrightarrow> map_of (add_keyword_results kw m) i = map_of m i"
  by (induction kw arbitrary: m) (simp_all add: update_conv' result_id_def)

lemma map_of_add_keyword_hit:
  "distinct (map result_id kw) \<Longrightarrow> k \<in> set kw \<Longrightarrow>
   map_of (add_keyword_results kw m) (result_id k) = Some (k\<lparr>search_source := Some ''keyword''\<rparr>)"
proof (induction kw arbitrary: m)
  case Nil
  then show ?case by simp
next
  case (Cons a kw)
  show ?case
  proof (cases "k \<in> set kw")
    case True
    with Cons show ?thesis by simp
  next
    case False
    with Cons.prems have "k = a" and "result_id k \<notin> result_id ` set kw" by auto
    then show ?thesis
      by (simp add: map_of_add_keyword_other update_conv') (simp add: result_id_def)
  qed
qed

lemma map_of_add_vector_other:
  "i \<notin> result_id ` set vec \<Longrightarrow> map_of (add_vector_results vec m) i = map_of m i"
  by (induction vec arbitrary: m) (simp_all add: update_conv' result_id_def split: option.splits)

lemma map_of_add_vector_hit:
  "distinct (map result_id vec) \<Longrightarrow> v \<in> set vec \<Longrightarrow>
   map_of (add_vector_results vec m) (result_id v) =
     (case map_of m (result_id v) of
        Some old \<Rightarrow> Some (old\<lparr>relevance := max (relevance old) (relevance v),
                              search_source := Some ''both''\<rparr>)
      | None \<Rightarrow> Some (v\<lparr>search_source := Some ''vector''\<rparr>))"
proof (induction vec arbitrary: m)
  case Nil
  then show ?case by simp
next
  case (Cons a vec)
  show ?case
  proof (cases "v \<in> set vec")
    case True
    with Cons.prems have "result_id a \<noteq> result_id v" by auto
    with True Cons show ?thesis
      by (simp add: update_conv' result_id_def split: option.splits)
  next
    case False
    with Cons.prems have "v = a" and "result_id v \<notin> result_id ` set vec" by auto
    then show ?thesis
      by (simp add: map_of_add_vector_other update_conv' split: option.splits)
         (simp add: result_id_def)
  qed
qed

text \<open>What the merged dictionary holds for an id, by the paths that returned it.\<close>

lemma merge_results_both:
  assumes "distinct (map result_id kw)" "distinct (map result_id vec)"
    and "k \<in> set kw" "v \<in> set vec" "result_id k = result_id v"
  shows "map_of (merge_results kw vec) (result_id k) =
         Some (k\<lparr>relevance := max (relevance k) (relevance v), search_source := Some ''both''\<rparr>)"
  using assms map_of_add_vector_hit [of vec v "add_keyword_results kw []"]
    map_of_add_keyword_hit [of kw k "[]"]
  by (simp add: merge_results_def)

lemma merge_results_keyword_only:
  assumes "distinct (map result_id kw)" "k \<in> set kw" "result_id k \<notin> result_id ` set vec"
  shows "map_of (merge_results kw vec) (result_id k) = Some (k\<lparr>search_source := Some ''keyword''\<rparr>)"
  using assms by (simp add: merge_results_def map_of_add_vector_other map_of_add_keyword_hit)

lemma merge_results_vector_only:
  assumes "distinct (map result_id vec)" "v \<in> set vec" "result_id v \<notin> result_id ` set kw"
  shows "map_of (merge_results kw vec) (result_id v) = Some (v\<lparr>search_source := Some ''vector''\<rparr>)"
  using assms map_of_add_vector_hit [of vec v "add_keyword_results kw []"]
  by (simp add: merge_results_def map_of_add_keyword_other)

lemma merge_results_neither:
  assumes "i \<notin> result_id ` set kw" "i \<notin> result_id ` set vec"
  shows "map_of (merge_results kw vec) i = None"
  using assms by (simp add: merge_results_def map_of_add_vector_other map_of_add_keyword_other)

lemma distinct_keys_merge_results: "distinct (map fst (merge_results kw vec))"
  by (simp add: merge_results_def distinct_keys_add_vector distinct_keys_add_keyword)

lemma merge_results_entry:
  assumes dk: "distinct (map result_id kw)" and dv: "distinct (map result_id vec)"
    and x: "x \<in> snd ` set (merge_results kw vec)"
  shows "(\<exists>k\<in>set kw. \<exists>v\<in>set vec. result_id k = result_id v \<and>
            x = k\<lparr>relevance := max (relevance k) (relevance v), search_source := Some ''both''\<rparr>)
       \<or> (\<exists>k\<in>set kw. result_id k \<notin> result_id ` set vec \<and> x = k\<lparr>search_source := Some ''keyword''\<rparr>)
       \<or> (\<exists>v\<in>set vec. result_id v \<notin> result_id ` set kw \<and> x = v\<lparr>search_source := Some ''vector''\<rparr>)"
proof -
  from x obtain i where "(i, x) \<in> set (merge_results kw vec)" by auto
  then have m: "map_of (merge_results kw vec) i = Some x"
    using distinct_keys_merge_results by (simp add: map_of_is_SomeI)
  show ?thesis
  proof (cases "i \<in> result_id ` set kw")
    case True
    then obtain k where k: "k \<in> set kw" "i = result_id k" by auto
    show ?thesis
    proof (cases "i \<in> result_id ` set vec")
      case True
      then obtain v where v: "v \<in> set vec" "i = result_id v" by auto
      from k v have same: "result_id k = result_id v" by simp
      from m k merge_results_both [OF dk dv k(1) v(1) same]
      have "x = k\<lparr>relevance := max (relevance k) (relevance v), search_source := Some ''both''\<rparr>"
        by simp
      with k(1) v(1) same show ?thesis by blast
    next
      case False
      with k have "result_id k \<notin> result_id ` set vec" by simp
      moreover from this m k merge_results_keyword_only [OF dk k(1), of vec]
      have "x = k\<lparr>search_source := Some ''keyword''\<rparr>" by simp
      ultimately show ?thesis using k(1) by blast
    qed
  next
    case False
    show ?thesis
    proof (cases "i \<in> result_id ` set vec")
      case True
      then obtain v where v: "v \<in> set vec" "i = result_id v" by auto
      with False have "result_id v \<notin> result_id ` set kw" by simp
      moreover from this m v merge_results_vector_only [OF dv v(1), of kw]
      have "x = v\<lparr>search_source := Some ''vector''\<rparr>" by simp
      ultimately show ?thesis using v(1) by blast
    next
      case nv: False
      with False m merge_results_neither [of i kw vec] show ?thesis by simp
    qed
  qed
qed

text \<open>
  C1. In a hybrid search with AI enabled, over a store whose idea ids are unique and an
  index that reports each id once: for every idea returned by both the keyword search and
  the vector search, with scores \<open>relevance k\<close> and \<open>relevance v\<close>, the merged dictionary
  holds for its id a result whose relevance is the maximum of the two and whose
  \<open>search_source\<close> is \<open>both\<close>; and every result the hybrid search returns has
  \<open>search_source = both\<close> if and only if its id was returned by both paths, in which
  case its relevance is that maximum.
\<close>

theorem hybrid_merge_max_and_source:
  assumes on: "ai_enabled (cfg e)" "\<not> offline_mode (cfg e)"
    and pk: "distinct (map idea_id (Ideas (db e)))"
    and idx: "index_ids_distinct (ideas_embeddings e)"
    and kw: "kw = keyword_search (db e) query limit 0 f"
    and vec: "vec = vector_search e query limit 0 f"
  shows "(\<forall>k\<in>set kw. \<forall>v\<in>set vec. result_id k = result_id v \<longrightarrow>
            (\<exists>x. map_of (merge_results kw vec) (result_id k) = Some x
                 \<and> relevance x = max (relevance k) (relevance v)
                 \<and> search_source x = Some ''both''))
       \<and> (\<forall>x\<in>set (hybrid_search e query limit offset f).
            (search_source x = Some ''both''
               \<longleftrightarrow> result_id x \<in> result_id ` set kw \<and> result_id x \<in> result_id ` set vec)
          \<and> (\<forall>k\<in>set kw. \<forall>v\<in>set vec. result_id k = result_id x \<and> result_id v = result_id x \<longrightarrow>
                 relevance x = max (relevance k) (relevance v)))"
proof -
  have dk: "distinct (map result_id kw)"
    using pk by (simp add: kw distinct_keyword_search)
  have dv: "distinct (map result_id vec)"
    using pk idx by (simp add: vec distinct_vector_search)
  have uk: "k = k'" if "k \<in> set kw" "k' \<in> set kw" "result_id k = result_id k'" for k k'
    using dk that by (meson distinct_map inj_onD)
  have uv: "v = v'" if "v \<in> set vec" "v' \<in> set vec" "result_id v = result_id v'" for v v'
    using dv that by (meson distinct_map inj_onD)
  have first: "\<exists>x. map_of (merge_results kw vec) (result_id k) = Some x
                 \<and> relevance x = max (relevance k) (relevance v)
                 \<and> search_source x = Some ''both''"
    if "k \<in> set kw" "v \<in> set vec" "result_id k = result_id v" for k v
    using merge_results_both [OF dk dv that] by simp
  have second: "(search_source x = Some ''both''
               \<longleftrightarrow> result_id x \<in> result_id ` set kw \<and> result_id x \<in> result_id ` set vec)
          \<and> (\<forall>k\<in>set kw. \<forall>v\<in>set vec. result_id k = result_id x \<and> result_id v = result_id x \<longrightarrow>
                 relevance x = max (relevance k) (relevance v))"
    if "x \<in> set (hybrid_search e query limit offset f)" for x
  proof -
    from that on have "x \<in> snd ` set (merge_results kw vec)"
      using set_py_slice [of "sort_desc relevance (map snd (merge_results kw vec))" offset "offset + limit"]
      by (auto simp: hybrid_search_def Let_def kw vec)
    from merge_results_entry [OF dk dv this]
    consider
      (both) k v where "k \<in> set kw" "v \<in> set vec" "result_id k = result_id v"
        "x = k\<lparr>relevance := max (relevance k) (relevance v), search_source := Some ''both''\<rparr>"
    | (keyword) k where "k \<in> set kw" "result_id k \<notin> result_id ` set vec"
        "x = k\<lparr>search_source := Some ''keyword''\<rparr>"
    | (vector) v where "v \<in> set vec" "result_id v \<notin> result_id ` set kw"
        "x = v\<lparr>search_source := Some ''vector''\<rparr>"
      by blast
    then show ?thesis
    proof cases
      case both
      have ids: "result_id x = result_id k" "result_id x = result_id v"
        using both by (simp_all add: result_id_def)
      have src: "search_source x = Some ''both''"
        using both(4) by simp
      have rx: "relevance x = max (relevance k) (relevance v)"
        using both(4) by simp
      have in_kw: "result_id x \<in> result_id ` set kw"
        using ids(1) both(1) by (rule image_eqI)
      have in_vec: "result_id x \<in> result_id ` set vec"
        using ids(2) both(2) by (rule image_eqI)
      have rel: "relevance x = max (relevance k') (relevance v')"
        if "k' \<in> set kw" "v' \<in> set vec" "result_id k' = result_id x" "result_id v' = result_id x"
        for k' v'
      proof -
        have "k' = k" using uk [OF that(1) both(1)] that(3) ids(1) by simp
        moreover have "v' = v" using uv [OF that(2) both(2)] that(4) ids(2) by simp
        ultimately show ?thesis using rx by simp
      qed
      from src in_kw in_vec rel show ?thesis by blast
    next
      case keyword
      have id: "result_id x = result_id k"
        using keyword(3) by (simp add: result_id_def)
      have src: "search_source x \<noteq> Some ''both''"
        using keyword(3) by simp
      have not_vec: "result_id x \<notin> result_id ` set vec"
        using keyword(2) id by simp
      then have none: "\<And>v'. v' \<in> set vec \<Longrightarrow> result_id v' \<noteq> result_id x"
        by (metis imageI)
      from src not_vec none show ?thesis by blast
    next
      case vector
      have id: "result_id x = result_id v"
        using vector(3) by (simp add: result_id_def)
      have src: "search_source x \<noteq> Some ''both''"
        using vector(3) by simp
      have not_kw: "result_id x \<notin> result_id ` set kw"
        using vector(2) id by simp
      then have none: "\<And>k'. k' \<in> set kw \<Longrightarrow> result_id k' \<noteq> result_id x"
        by (metis imageI)
      from src not_kw none show ?thesis by blast
    qed
  qed
  from first second show ?thesis by blast
qed


lemma index_ids_distinct_fixed_index:
  "distinct (map fst hits) \<Longrightarrow> index_ids_distinct (fixed_index hits)"
  by (auto simp: index_ids_distinct_def fixed_index_def)

theorem hybrid_merge_max_and_source_witness:
  "ai_enabled (cfg tagged_env) \<and> \<not> offline_mode (cfg tagged_env)
   \<and> distinct (map idea_id (Ideas (db tagged_env)))
   \<and> index_ids_distinct (ideas_embeddings tagged_env)
   \<and> map result_id (keyword_search (db tagged_env) ''a'' 10 0 no_filters) = [1]
   \<and> map relevance (keyword_search (db tagged_env) ''a'' 10 0 no_filters) = [1 / 10]
   \<and> map result_id (vector_search tagged_env ''a'' 10 0 no_filters) = [1]
   \<and> map relevance (vector_search tagged_env ''a'' 10 0 no_filters) = [3 / 4]
   \<and> map result_id (hybrid_search tagged_env ''a'' 10 0 no_filters) = [1]
   \<and> list_all (\<lambda>x. search_source x = Some ''both'' \<and> relevance x = 3 / 4)
        (hybrid_search tagged_env ''a'' 10 0 no_filters)"
proof -
  let ?kw = "keyword_search (db tagged_env) ''a'' 10 0 no_filters"
  let ?vec = "vector_search tagged_env ''a'' 10 0 no_filters"
  let ?hs = "hybrid_search tagged_env ''a'' 10 0 no_filters"
  have on: "ai_enabled (cfg tagged_env)" "\<not> offline_mode (cfg tagged_env)"
    by (simp_all add: tagged_env_def online_def)
  have pk: "distinct (map idea_id (Ideas (db tagged_env)))"
    by (simp add: tagged_env_def tagged_db_def)
  have idx: "index_ids_distinct (ideas_embeddings tagged_env)"
    by (simp add: tagged_env_def index_ids_distinct_fixed_index)
  have kw_ids: "map result_id ?kw = [1]" by code_simp
  have kw_rel: "map relevance ?kw = [1 / 10]" by code_simp
  have vec_ids: "map result_id ?vec = [1]" by code_simp
  have vec_rel: "map relevance ?vec = [3 / 4]" by code_simp
  have hs_ids: "map result_id ?hs = [1]" by code_simp
  from kw_ids kw_rel obtain k where k: "?kw = [k]" "result_id k = 1" "relevance k = 1 / 10"
    by (auto simp: map_eq_Cons_conv)
  from vec_ids vec_rel obtain v where v: "?vec = [v]" "result_id v = 1" "relevance v = 3 / 4"
    by (auto simp: map_eq_Cons_conv)
  from hs_ids obtain x where x: "?hs = [x]" "result_id x = 1"
    by (auto simp: map_eq_Cons_conv)
  note inst = hybrid_merge_max_and_source [OF on pk idx refl refl, of "''a''" 10 no_filters 0]
  from inst have
    "\<forall>x\<in>set ?hs.
       (search_source x = Some ''both''
          \<longleftrightarrow> result_id x \<in> result_id ` set ?kw \<and> result_id x \<in> result_id ` set ?vec)
       \<and> (\<forall>k\<in>set ?kw. \<forall>v\<in>set ?vec. result_id k = result_id x \<and> result_id v = result_id x \<longrightarrow>
              relevance x = max (relevance k) (relevance v))"
    by (rule conjunct2)
  then have "search_source x = Some ''both'' \<and> relevance x = 3 / 4"
    unfolding x(1) k(1) v(1) using x(2) k(2,3) v(2,3) by simp
  then have "list_all (\<lambda>x. search_source x = Some ''both'' \<and> relevance x = 3 / 4) ?hs"
    unfolding x(1) by simp
  with on pk idx kw_ids kw_rel vec_ids vec_rel hs_ids show ?thesis by blast
qed

section \<open>Zero scores in the keyword search\<close>

lemma keyword_search_rust_go_example:
  "map result_id (keyword_search rust_go_db ''model'' 10 0 no_filters) = [1]
   \<and> map relevance (keyword_search rust_go_db ''model'' 10 0 no_filters) = [1 / 10]"
  by code_simp

text \<open>
  C4. The keyword search is specified to leave out every candidate whose score is zero.
  The code has no test on the score: it relies on the SQL pattern \<open>%query%\<close> to select
  the ideas that contain the query, and passes the query into the pattern unescaped, so
  \<open>%\<close> and \<open>_\<close> in a query act as wildcards. For the query \<open>5%\<close> the idea with content
  \<open>50\<close> is selected, \<open>str.count\<close> finds no occurrence of \<open>5%\<close> in it, and the idea is
  returned with relevance zero.
\<close>

theorem keyword_search_returns_zero_score:
  "map result_id (keyword_search percent_db ''5%'' 10 0 no_filters) = [1]
   \<and> map relevance (keyword_search percent_db ''5%'' 10 0 no_filters) = [0]"
  by code_simp

theorem keyword_search_returns_zero_score_witness:
  "\<not> list_all (\<lambda>x. 0 < relevance x) (keyword_search percent_db ''5%'' 10 0 no_filters)"
proof -
  from keyword_search_returns_zero_score
  obtain x where "keyword_search percent_db ''5%'' 10 0 no_filters = [x]" "relevance x = 0"
    by (auto simp: map_eq_Cons_conv)
  then show ?thesis by simp
qed

section \<open>The range of the relevance\<close>

lemma keyword_relevance_bounds:
  "0 \<le> calculate_keyword_relevance r query \<and> calculate_keyword_relevance r query \<le> 1"
  by (simp add: calculate_keyword_relevance_def Let_def)

lemma unit_keyword_search: "x \<in> set (keyword_search d query limit offset f) \<Longrightarrow> unit_score x"
  using keyword_relevance_bounds
  by (auto simp: keyword_search_def Let_def unit_score_def)

lemma distance_at_member:
  "distance_at ds i = Inr (Some x) \<Longrightarrow> \<exists>dl l. ds = Some dl \<and> l \<in> set dl \<and> x \<in> set l"
  by (auto simp: distance_at_def split: option.splits list.splits if_splits)

lemma similar_rows_distance:
  "similar_rows ds i xs = Inr rows \<Longrightarrow> s \<in> set rows \<Longrightarrow> distance s = Some x \<Longrightarrow>
   \<exists>dl l. ds = Some dl \<and> l \<in> set dl \<and> x \<in> set l"
proof (induction xs arbitrary: i rows)
  case Nil
  then show ?case by simp
next
  case (Cons a xs)
  from Cons.prems(1) obtain dv rest where
    dv: "distance_at ds i = Inr dv" and rest: "similar_rows ds (Suc i) xs = Inr rest"
    and rows: "rows = \<lparr>similar_id = a, distance = dv\<rparr> # rest"
    by (auto split: sum.splits)
  show ?case
  proof (cases "s \<in> set rest")
    case True
    then show ?thesis using Cons.IH [OF rest _ Cons.prems(3)] by simp
  next
    case False
    with Cons.prems(2) rows have "s = \<lparr>similar_id = a, distance = dv\<rparr>" by simp
    with Cons.prems(3) dv have "distance_at ds i = Inr (Some x)" by simp
    then show ?thesis by (rule distance_at_member)
  qed
qed

lemma search_similar_ideas_distance:
  assumes "index_distances_in_unit coll"
    and "search_similar_ideas coll query n m = Inr rows" and "s \<in> set rows"
  shows "0 \<le> distance_relevance (distance s) \<and> distance_relevance (distance s) \<le> 1"
proof (cases "distance s")
  case None
  then show ?thesis by (simp add: distance_relevance_def)
next
  case (Some x)
  from assms(2) obtain results where res: "coll query n m = Inr results"
    by (auto simp: search_similar_ideas_def split: sum.splits)
  with assms(2,3) obtain ids0 where "similar_rows (distances results) 0 ids0 = Inr rows"
    by (auto simp: search_similar_ideas_def split: list.splits)
  from similar_rows_distance [OF this assms(3) Some]
  obtain dl l where "distances results = Some dl" "l \<in> set dl" "x \<in> set l" by blast
  with assms(1) res have "0 \<le> x \<and> x \<le> 1"
    unfolding index_distances_in_unit_def by blast
  with Some show ?thesis by (simp add: distance_relevance_def)
qed

lemma vector_hits_relevance:
  "x \<in> set (vector_hits d f ss) \<Longrightarrow> \<exists>s\<in>set ss. relevance x = distance_relevance (distance s)"
  by (induction ss) (auto split: option.splits if_splits)

lemma unit_vector_search:
  assumes "index_distances_in_unit (ideas_embeddings e)"
    and "x \<in> set (vector_search e query limit offset f)"
  shows "unit_score x"
proof (cases "search_similar_ideas (ideas_embeddings e) query (limit + offset) (metadata_filter_of f)")
  case (Inl ex)
  with assms(2) show ?thesis by (auto simp: vector_search_def unit_keyword_search split: if_splits)
next
  case (Inr rows)
  show ?thesis
  proof (cases "\<not> ai_enabled (cfg e) \<or> offline_mode (cfg e)")
    case True
    with assms(2) show ?thesis by (auto simp: vector_search_def unit_keyword_search)
  next
    case False
    with assms(2) Inr have "x \<in> set (vector_hits (db e) f (py_slice rows offset (offset + limit)))"
      by (simp add: vector_search_def)
    then obtain s where s: "s \<in> set (py_slice rows offset (offset + limit))"
      and r: "relevance x = distance_relevance (distance s)"
      using vector_hits_relevance by blast
    from s have "s \<in> set rows"
      using set_py_slice [of rows offset "offset + limit"] by auto
    from search_similar_ideas_distance [OF assms(1) Inr this] r
    show ?thesis by (simp add: unit_score_def)
  qed
qed

lemma values_update: "snd ` set (AList.update k v m) \<subseteq> insert v (snd ` set m)"
  by (induction m) auto

lemma unit_update:
  "unit_score v \<Longrightarrow> \<forall>x\<in>snd ` set m. unit_score x \<Longrightarrow>
   \<forall>x\<in>snd ` set (AList.update k v m). unit_score x"
  by (induction m) auto

lemma unit_add_keyword:
  "\<forall>x\<in>set kw. unit_score x \<Longrightarrow> \<forall>x\<in>snd ` set m. unit_score x \<Longrightarrow>
   \<forall>x\<in>snd ` set (add_keyword_results kw m). unit_score x"
proof (induction kw arbitrary: m)
  case Nil
  then show ?case by simp
next
  case (Cons a kw)
  let ?v = "a\<lparr>search_source := Some ''keyword''\<rparr>"
  have "unit_score ?v" using Cons.prems(1) by (simp add: unit_score_def)
  then have "\<forall>x\<in>snd ` set (AList.update (idea_id (row a)) ?v m). unit_score x"
    using Cons.prems(2) by (rule unit_update)
  from Cons.IH [OF _ this] Cons.prems(1)
  show ?case by simp
qed

lemma unit_add_vector:
  "\<forall>x\<in>set vec. unit_score x \<Longrightarrow> \<forall>x\<in>snd ` set m. unit_score x \<Longrightarrow>
   \<forall>x\<in>snd ` set (add_vector_results vec m). unit_score x"
proof (induction vec arbitrary: m)
  case Nil
  then show ?case by simp
next
  case (Cons a vec)
  let ?k = "idea_id (row a)"
  have a: "unit_score a" using Cons.prems(1) by simp
  have rest: "\<forall>x\<in>set vec. unit_score x" using Cons.prems(1) by simp
  show ?case
  proof (cases "map_of m ?k")
    case None
    have "unit_score (a\<lparr>search_source := Some ''vector''\<rparr>)"
      using a by (simp add: unit_score_def)
    then have "\<forall>x\<in>snd ` set (AList.update ?k (a\<lparr>search_source := Some ''vector''\<rparr>) m). unit_score x"
      using Cons.prems(2) by (rule unit_update)
    from Cons.IH [OF rest this] None show ?thesis by simp
  next
    case (Some old)
    let ?v = "old\<lparr>relevance := max (relevance old) (relevance a), search_source := Some ''both''\<rparr>"
    from Some have "(?k, old) \<in> set m" by (rule map_of_SomeD)
    then have "old \<in> snd ` set m" by force
    with Cons.prems(2) have "unit_score old" by blast
    with a have "unit_score ?v"
      by (simp add: unit_score_def max_def)
    then have "\<forall>x\<in>snd ` set (AList.update ?k ?v m). unit_score x"
      using Cons.prems(2) by (rule unit_update)
    from Cons.IH [OF rest this] Some show ?thesis by simp
  qed
qed

lemma unit_hybrid_search:
  assumes "index_distances_in_unit (ideas_embeddings e)"
    and "x \<in> set (hybrid_search e query limit offset f)"
  shows "unit_score x"
proof (cases "\<not> ai_enabled (cfg e) \<or> offline_mode (cfg e)")
  case True
  with assms(2) show ?thesis by (auto simp: hybrid_search_def unit_keyword_search)
next
  case False
  let ?kw = "keyword_search (db e) query limit 0 f"
  let ?vec = "vector_search e query limit 0 f"
  from False assms(2) have "x \<in> snd ` set (merge_results ?kw ?vec)"
    using set_py_slice [of "sort_desc relevance (map snd (merge_results ?kw ?vec))" offset "offset + limit"]
    by (auto simp: hybrid_search_def Let_def)
  moreover have "\<forall>x\<in>snd ` set (merge_results ?kw ?vec). unit_score x"
  proof -
    have k: "\<forall>x\<in>set ?kw. unit_score x" using unit_keyword_search by blast
    have v: "\<forall>x\<in>set ?vec. unit_score x" using unit_vector_search [OF assms(1)] by blast
    have "\<forall>x\<in>snd ` set (add_keyword_results ?kw []). unit_score x"
      using k by (rule unit_add_keyword) simp
    with v show ?thesis unfolding merge_results_def by (rule unit_add_vector)
  qed
  ultimately show ?thesis by blast
qed

text \<open>
  C2, as the code has it. Every relevance of the keyword search lies in \<open>[0, 1]\<close>. The
  vector search turns the distance \<open>d\<close> the index reports into \<open>1.0 - d\<close> (a missing
  distance counts as \<open>0.0\<close>); there is no floor at zero. So every relevance that \<open>search\<close>
  returns, in any mode, lies in \<open>[0, 1]\<close> provided every distance the index reports lies
  in \<open>[0, 1]\<close>.
\<close>

theorem relevance_in_unit_interval_if_distances_are:
  "(\<forall>x\<in>set (keyword_search (db e) query limit offset f). 0 \<le> relevance x \<and> relevance x \<le> 1)
   \<and> (\<forall>x\<in>set (vector_hits (db e) f [s]).
         relevance x = 1 - (case distance s of None \<Rightarrow> 0 | Some dv \<Rightarrow> dv))
   \<and> (index_distances_in_unit (ideas_embeddings e) \<longrightarrow>
        (\<forall>x\<in>set (search e query search_type limit offset filters).
           0 \<le> relevance x \<and> relevance x \<le> 1))"
proof -
  have kw: "\<forall>x\<in>set (keyword_search (db e) query limit offset f). 0 \<le> relevance x \<and> relevance x \<le> 1"
    using unit_keyword_search by (auto simp: unit_score_def)
  have conv: "\<forall>x\<in>set (vector_hits (db e) f [s]).
                relevance x = 1 - (case distance s of None \<Rightarrow> 0 | Some dv \<Rightarrow> dv)"
    by (auto simp: distance_relevance_def split: option.splits if_splits)
  have all: "0 \<le> relevance x \<and> relevance x \<le> 1"
    if "index_distances_in_unit (ideas_embeddings e)"
      "x \<in> set (search e query search_type limit offset filters)" for x
  proof -
    from that(2) have "unit_score x"
      using unit_keyword_search unit_vector_search [OF that(1)] unit_hybrid_search [OF that(1)]
      by (auto simp: search_def Let_def split: if_splits)
    then show ?thesis by (simp add: unit_score_def)
  qed
  from kw conv all show ?thesis by blast
qed

lemma index_distances_in_unit_fixed_index:
  "\<forall>h\<in>set hits. 0 \<le> snd h \<and> snd h \<le> 1 \<Longrightarrow> index_distances_in_unit (fixed_index hits)"
  by (auto simp: index_distances_in_unit_def fixed_index_def dest!: in_set_takeD)

theorem relevance_in_unit_interval_if_distances_are_witness:
  "index_distances_in_unit (ideas_embeddings tagged_env)
   \<and> map relevance (search tagged_env ''a'' ''hybrid'' 10 0 None) = [3 / 4]
   \<and> list_all unit_score (search tagged_env ''a'' ''hybrid'' 10 0 None)"
proof -
  have idx: "index_distances_in_unit (ideas_embeddings tagged_env)"
    by (simp add: tagged_env_def index_distances_in_unit_fixed_index)
  have val: "map relevance (search tagged_env ''a'' ''hybrid'' 10 0 None) = [3 / 4]"
    by code_simp
  from relevance_in_unit_interval_if_distances_are
         [where e = tagged_env and query = "''a''" and search_type = "''hybrid''" and limit = 10
            and offset = 0 and filters = None] idx
  have "\<forall>x\<in>set (search tagged_env ''a'' ''hybrid'' 10 0 None). 0 \<le> relevance x \<and> relevance x \<le> 1"
    by blast
  then have "list_all unit_score (search tagged_env ''a'' ''hybrid'' 10 0 None)"
    by (simp add: list_all_iff unit_score_def)
  with idx val show ?thesis by blast
qed

text \<open>
  C2 as stated fails: the index reports idea 1 at distance \<open>3/2\<close>, the query has no
  lexical match, and the hybrid search returns the relevance \<open>-1/2\<close>.
\<close>

theorem relevance_below_zero_counterexample:
  "map relevance (search far_env ''z'' ''hybrid'' 10 0 None) = [- (1 / 2)]"
  by code_simp

section \<open>Pagination of the hybrid search\<close>

text \<open>
  C3. Hybrid search is specified to give each retriever \<open>limit + offset\<close> candidates and to
  cut the page out of the sorted union. The code calls both retrievers with \<open>limit\<close> and
  offset \<open>0\<close>, and then cuts \<open>results[offset:offset + limit]\<close> out of the union of at most
  \<open>2 * limit\<close> results. In \<open>paging_env\<close> five ideas merge into the ranking
  \<open>5, 1, 2, 3, 4\<close>; the page \<open>limit = 2, offset = 2\<close> should hold ranks 2 and 3 (ideas
  \<open>2, 3\<close>), and the code answers idea \<open>4\<close> alone.
\<close>

theorem hybrid_page_misses_ranks:
  "map result_id (hybrid_search paging_env ''a'' 5 0 no_filters) = [5, 1, 2, 3, 4]
   \<and> map result_id (hybrid_search paging_env ''a'' 2 2 no_filters) = [4]"
  by code_simp

theorem hybrid_page_misses_ranks_witness:
  "length (hybrid_search paging_env ''a'' 2 2 no_filters) = 1"
  using hybrid_page_misses_ranks by (auto dest: arg_cong [where f = length])

section \<open>Degradation of the vector mode\<close>

text \<open>
  C5. When AI is disabled or the system is in offline mode, a search in mode \<open>vector\<close>
  returns exactly what the search in mode \<open>keyword\<close> (the lexical mode) returns for the
  same query, limit, offset and filters.
\<close>

theorem vector_mode_is_keyword_when_ai_unavailable:
  assumes "\<not> ai_enabled (cfg e) \<or> offline_mode (cfg e)"
  shows "search e query ''vector'' limit offset filters
       = search e query ''keyword'' limit offset filters"
  using assms by (auto simp add: search_def vector_search_def Let_def)

theorem vector_mode_is_keyword_when_ai_unavailable_witness:
  "\<not> ai_enabled (cfg offline_env)
   \<and> map result_id (search offline_env ''a'' ''keyword'' 10 0 None) = [1]
   \<and> search offline_env ''a'' ''vector'' 10 0 None = search offline_env ''a'' ''keyword'' 10 0 None"
proof -
  have off: "\<not> ai_enabled (cfg offline_env)"
    by (simp add: offline_env_def ai_off_def)
  have found: "map result_id (search offline_env ''a'' ''keyword'' 10 0 None) = [1]"
    by code_simp
  from off have "\<not> ai_enabled (cfg offline_env) \<or> offline_mode (cfg offline_env)" by simp
  from vector_mode_is_keyword_when_ai_unavailable [OF this] off found
  show ?thesis by simp
qed

section \<open>An index that raises\<close>

lemma down_env_raises:
  "search_similar_ideas (ideas_embeddings down_env) ''a'' (10 + 0) (metadata_filter_of no_filters)
   = Inl ChromaError"
  by (simp add: search_similar_ideas_def down_env_def failing_index_def)

text \<open>
  C6, as the code has it. When the query of the vector index raises, \<open>_vector_search\<close>
  catches the exception and returns the keyword search for the same query, limit, offset
  and filters: the retriever itself substitutes the lexical results.
\<close>

theorem vector_search_falls_back_to_keyword_on_error:
  assumes "search_similar_ideas (ideas_embeddings e) query (limit + offset) (metadata_filter_of f) = Inl ex"
  shows "vector_search e query limit offset f = keyword_search (db e) query limit offset f"
  using assms by (simp add: vector_search_def)

theorem vector_search_falls_back_to_keyword_on_error_witness:
  "search_similar_ideas (ideas_embeddings down_env) ''a'' (10 + 0) (metadata_filter_of no_filters)
     = Inl ChromaError
   \<and> vector_search down_env ''a'' 10 0 no_filters = keyword_search (db down_env) ''a'' 10 0 no_filters"
  using vector_search_falls_back_to_keyword_on_error [OF down_env_raises] down_env_raises
  by simp

text \<open>
  C6 as stated fails: with an index that raises, the vector retriever answers idea 1,
  not the empty list.
\<close>

theorem vector_search_on_error_counterexample:
  "search_similar_ideas (ideas_embeddings down_env) ''a'' (10 + 0) (metadata_filter_of no_filters)
     = Inl ChromaError
   \<and> map result_id (vector_search down_env ''a'' 10 0 no_filters) = [1]"
proof -
  have "map result_id (vector_search down_env ''a'' 10 0 no_filters) = [1]"
    by code_simp
  with down_env_raises show ?thesis by simp
qed

section \<open>Tag filters on the two retrieval paths\<close>

text \<open>
  C7. The filters are specified to exclude the same ideas on both paths. The lexical path
  keeps an idea that carries any one of the requested tags (\<open>tag_id IN (...)\<close>), the
  vector path keeps an idea only if it carries all of them (\<open>issubset\<close>). Idea 1 of
  \<open>tagged_env\<close> carries tag 1 only; with the filter \<open>tag_ids = [1, 2]\<close> the vector path
  drops it although the index reports it, the lexical path returns it, and so does the
  hybrid search.
\<close>

theorem tag_filter_differs_between_paths:
  "map result_id (vector_search tagged_env ''a'' 10 0 both_tags) = []
   \<and> map result_id (keyword_search (db tagged_env) ''a'' 10 0 both_tags) = [1]
   \<and> map result_id (hybrid_search tagged_env ''a'' 10 0 both_tags) = [1]"
  by code_simp

theorem tag_filter_differs_between_paths_witness:
  "length (vector_search tagged_env ''a'' 10 0 both_tags)
     < length (keyword_search (db tagged_env) ''a'' 10 0 both_tags)"
  using tag_filter_differs_between_paths by (auto dest: arg_cong [where f = length])

section \<open>Related ideas\<close>

lemma py_slice_all: "int (length xs) \<le> b \<Longrightarrow> py_slice xs 0 b = xs"
  by (simp add: py_slice_def py_bound_def Let_def min_def) arith

lemma py_slice_take: "0 \<le> b \<Longrightarrow> py_slice xs 0 b = take (nat b) xs"
  by (simp add: py_slice_def py_bound_def Let_def min_def)

lemma sql_limit_take: "0 \<le> l \<Longrightarrow> sql_limit l 0 xs = take (nat l) xs"
  by (simp add: sql_limit_def)

lemma length_map_filter_le: "length (List.map_filter g xs) \<le> length xs"
  by (simp add: List.map_filter_def)

lemma tag_count_no_tags [simp]: "tag_count d [] x = 0"
  by (simp add: tag_count_def)

lemma tag_candidates_no_tags [simp]: "tag_candidates d i [] excluded = []"
  by (simp add: tag_candidates_def)

lemma set_tag_candidates:
  "set (tag_candidates d i tag_ids excluded)
   = {x \<in> set (Ideas d). 0 < tag_count d tag_ids x \<and> idea_id x \<noteq> i \<and> idea_id x \<notin> set excluded}"
  by (auto simp: tag_candidates_def)

lemma ranked_tag_candidates:
  "sorted_wrt (ranked_before d tag_ids) (tag_candidates d i tag_ids excluded)"
proof -
  let ?key = "\<lambda>x. (- fst (tag_rank d tag_ids x), - snd (tag_rank d tag_ids x))"
  have "sorted (map ?key (tag_candidates d i tag_ids excluded))"
    unfolding tag_candidates_def by (rule sorted_sort_key)
  then have "sorted_wrt (\<lambda>x y. ?key x \<le> ?key y) (tag_candidates d i tag_ids excluded)"
    by (simp add: sorted_map)
  moreover have "ranked_before d tag_ids x y" if "?key x \<le> ?key y" for x y
    using that by (auto simp: ranked_before_def tag_rank_def less_eq_prod_def)
  ultimately show ?thesis
    by (rule sorted_wrt_mono_rel [rotated]) simp
qed

lemma tag_results_fill:
  assumes "int (length rel) < limit"
  shows "tag_results d i rel (limit - int (length rel)) limit
       = rel @ take (nat (limit - int (length rel)))
                 (tag_candidates d i (map tag_id (get_idea_tags d i)) (map idea_id rel))"
proof (cases "get_idea_tags d i = []")
  case True
  then show ?thesis by (simp add: tag_results_def)
next
  case False
  let ?c = "tag_candidates d i (map tag_id (get_idea_tags d i)) (map idea_id rel)"
  let ?rows = "take (nat (limit - int (length rel))) ?c"
  have "int (length (rel @ ?rows)) \<le> limit" using assms by simp
  then have "py_slice (rel @ ?rows) 0 limit = rel @ ?rows" by (rule py_slice_all)
  with False assms show ?thesis
    by (simp add: tag_results_def Let_def sql_limit_take)
qed

lemma vector_tier_fill:
  assumes "int (length rel) < limit"
  shows "py_slice (rel @ vector_related d i (limit - int (length rel)) sims) 0 limit
       = rel @ List.map_filter (\<lambda>s. map_option row (get_idea d (similar_id s)))
                 (take (nat (limit - int (length rel))) (filter (\<lambda>s. similar_id s \<noteq> i) sims))"
proof -
  let ?n = "limit - int (length rel)"
  let ?v = "List.map_filter (\<lambda>s. map_option row (get_idea d (similar_id s)))
              (take (nat ?n) (filter (\<lambda>s. similar_id s \<noteq> i) sims))"
  have v: "vector_related d i ?n sims = ?v"
    using assms by (simp add: vector_related_def py_slice_take)
  have "length ?v \<le> length (take (nat ?n) (filter (\<lambda>s. similar_id s \<noteq> i) sims))"
    by (rule length_map_filter_le)
  also have "\<dots> \<le> nat ?n" by simp
  finally have "int (length (rel @ ?v)) \<le> limit" using assms by simp
  then have "py_slice (rel @ ?v) 0 limit = rel @ ?v" by (rule py_slice_all)
  with v show ?thesis by simp
qed

text \<open>
  C9, as the code has it, for an idea in the store and \<open>limit \<ge> 0\<close>. The answer never
  holds more than \<open>limit\<close> ideas. If the curated relations give \<open>limit\<close> ideas, they are
  the answer. Otherwise, with AI enabled and online and an index that answers, the answer
  is tier 1 followed by the ideas of the first \<open>limit - |tier 1|\<close> neighbours other
  than the source idea, and the tag overlap is not consulted. The tag overlap is
  consulted only when the vector tier is skipped (AI disabled or offline mode) or its
  index query raises: then the answer is tier 1 followed by the first
  \<open>limit - |tier 1|\<close> candidates, the ideas that share a tag with the source idea, other
  than the source and the ideas of tier 1, ranked by the number of shared tags, highest
  first, then by \<open>created_at\<close>, latest first.
\<close>

theorem related_ideas_by_tier:
  assumes idea: "get_idea (db e) i = Some idea"
    and nonneg: "0 \<le> limit"
    and rel: "rel = related_from_relations (db e) i limit"
    and remaining: "remaining = limit - int (length rel)"
    and tag_ids: "tag_ids = map tag_id (get_idea_tags (db e) i)"
    and cands: "cands = tag_candidates (db e) i tag_ids (map idea_id rel)"
  shows "length (get_related_ideas e i limit) \<le> nat limit
       \<and> (limit \<le> int (length rel) \<longrightarrow> get_related_ideas e i limit = take (nat limit) rel)
       \<and> (int (length rel) < limit \<and> ai_enabled (cfg e) \<and> \<not> offline_mode (cfg e)
            \<and> search_similar_ideas (ideas_embeddings e) (content (row idea)) (remaining + 1) None
                = Inr sims
          \<longrightarrow> get_related_ideas e i limit
              = rel @ List.map_filter (\<lambda>s. map_option row (get_idea (db e) (similar_id s)))
                        (take (nat remaining) (filter (\<lambda>s. similar_id s \<noteq> i) sims)))
       \<and> (int (length rel) < limit
            \<and> (\<not> ai_enabled (cfg e) \<or> offline_mode (cfg e)
                \<or> search_similar_ideas (ideas_embeddings e) (content (row idea)) (remaining + 1) None
                    = Inl ex)
          \<longrightarrow> get_related_ideas e i limit = rel @ take (nat remaining) cands)
       \<and> sorted_wrt (ranked_before (db e) tag_ids) cands
       \<and> set cands = {x \<in> set (Ideas (db e)).
            0 < tag_count (db e) tag_ids x \<and> idea_id x \<noteq> i \<and> idea_id x \<notin> idea_id ` set rel}"
proof -
  let ?r = "get_related_ideas e i limit"
  let ?q = "search_similar_ideas (ideas_embeddings e) (content (row idea)) (remaining + 1) None"
  let ?t2 = "\<lambda>sims. rel @ List.map_filter (\<lambda>s. map_option row (get_idea (db e) (similar_id s)))
                        (take (nat remaining) (filter (\<lambda>s. similar_id s \<noteq> i) sims))"
  let ?t3 = "rel @ take (nat remaining) cands"
  have early: "?r = take (nat limit) rel" if "limit \<le> int (length rel)"
    using that idea nonneg
    by (simp add: get_related_ideas_def Let_def rel [symmetric] py_slice_take)
  have tier2: "?r = ?t2 sims"
    if "int (length rel) < limit" "ai_enabled (cfg e)" "\<not> offline_mode (cfg e)" "?q = Inr sims"
    for sims
    using that idea vector_tier_fill [OF that(1), of "db e" i sims]
    by (simp add: get_related_ideas_def Let_def rel [symmetric] remaining)
  have fill: "tag_results (db e) i rel remaining limit = ?t3" if "int (length rel) < limit"
    using tag_results_fill [OF that] by (simp add: cands tag_ids remaining)
  have tier3: "?r = ?t3"
    if short: "int (length rel) < limit"
      and skipped: "\<not> ai_enabled (cfg e) \<or> offline_mode (cfg e) \<or> ?q = Inl ex"
  proof (cases "ai_enabled (cfg e) \<and> \<not> offline_mode (cfg e)")
    case True
    with skipped have "?q = Inl ex" by blast
    with True idea short fill [OF short] show ?thesis
      by (simp add: get_related_ideas_def Let_def rel [symmetric] remaining)
  next
    case False
    with idea short fill [OF short] show ?thesis
      by (auto simp add: get_related_ideas_def Let_def rel [symmetric] remaining)
  qed
  have cap: "length ?r \<le> nat limit"
  proof (cases "limit \<le> int (length rel)")
    case True
    from early [OF True] show ?thesis by simp
  next
    case False
    then have short: "int (length rel) < limit" by simp
    show ?thesis
    proof (cases "ai_enabled (cfg e) \<and> \<not> offline_mode (cfg e)")
      case True
      show ?thesis
      proof (cases ?q)
        case (Inl ex')
        with True idea short fill [OF short] have "?r = ?t3"
          by (simp add: get_related_ideas_def Let_def rel [symmetric] remaining)
        with short show ?thesis by (simp add: remaining)
      next
        case (Inr sims')
        from tier2 [OF short _ _ Inr] True have "?r = ?t2 sims'" by simp
        moreover have "length (List.map_filter (\<lambda>s. map_option row (get_idea (db e) (similar_id s)))
                        (take (nat remaining) (filter (\<lambda>s. similar_id s \<noteq> i) sims'))) \<le> nat remaining"
          by (rule order_trans [OF length_map_filter_le]) simp
        ultimately show ?thesis using short by (simp add: remaining)
      qed
    next
      case off: False
      then have "\<not> ai_enabled (cfg e) \<or> offline_mode (cfg e) \<or> ?q = Inl ex" by blast
      from tier3 [OF short this] short show ?thesis by (simp add: remaining)
    qed
  qed
  have ranked: "sorted_wrt (ranked_before (db e) tag_ids) cands"
    unfolding cands by (rule ranked_tag_candidates)
  have members: "set cands = {x \<in> set (Ideas (db e)).
            0 < tag_count (db e) tag_ids x \<and> idea_id x \<noteq> i \<and> idea_id x \<notin> idea_id ` set rel}"
    unfolding cands by (simp add: set_tag_candidates)
  from cap early tier2 tier3 ranked members show ?thesis by blast
qed


lemma fixed_index_answer:
  "search_similar_ideas (fixed_index hits) query n None
   = Inr (map (\<lambda>h. \<lparr>similar_id = fst h, distance = Some (snd h)\<rparr>) (take (nat n) hits))"
proof -
  have rows: "similar_rows (Some [map snd hs']) k (map fst hs)
      = Inr (map (\<lambda>h. \<lparr>similar_id = fst h, distance = Some (snd h)\<rparr>) hs)"
    if "drop k hs' = hs" for hs hs' :: "(int \<times> real) list" and k
    using that
  proof (induction hs arbitrary: k)
    case Nil
    then show ?case by simp
  next
    case (Cons h hs)
    from Cons.prems have k: "k < length hs'" by (metis drop_all linorder_not_less list.distinct(1))
    from Cons.prems have h: "hs' ! k = h" by (metis nth_via_drop)
    from Cons.prems have "drop (Suc k) hs' = hs" by (metis drop_Suc tl_drop list.sel(3))
    from Cons.IH [OF this] k h show ?case
      by (simp add: distance_at_def)
  qed
  show ?thesis
    using rows [of 0 "take (nat n) hits" "take (nat n) hits"]
    by (simp add: search_similar_ideas_def fixed_index_def take_map)
qed

theorem related_ideas_by_tier_witness:
  "map idea_id (get_related_ideas related_off_env 5 1) = [6]
   \<and> map idea_id (get_related_ideas neighbour_env 5 3) = [6, 7, 8]
   \<and> map idea_id (get_related_ideas related_off_env 5 3) = [6, 8, 7]
   \<and> length (get_related_ideas related_off_env 5 3) \<le> 3"
proof -
  have there: "get_idea related_db 5 \<noteq> None" by code_simp
  then obtain idea where idea: "get_idea related_db 5 = Some idea" by blast
  have dbs: "db related_off_env = related_db" "db neighbour_env = related_db"
    by (simp_all add: related_off_env_def neighbour_env_def)
  have off: "\<not> ai_enabled (cfg related_off_env)"
    by (simp add: related_off_env_def ai_off_def)
  have on: "ai_enabled (cfg neighbour_env)" "\<not> offline_mode (cfg neighbour_env)"
    by (simp_all add: neighbour_env_def online_def)
  define rel1 where "rel1 = related_from_relations related_db 5 1"
  define rel3 where "rel3 = related_from_relations related_db 5 3"
  define tag_ids where "tag_ids = map tag_id (get_idea_tags related_db 5)"
  define cands1 where "cands1 = tag_candidates related_db 5 tag_ids (map idea_id rel1)"
  define cands3 where "cands3 = tag_candidates related_db 5 tag_ids (map idea_id rel3)"
  define sims where
    "sims = [\<lparr>similar_id = 5, distance = Some 0\<rparr>, \<lparr>similar_id = 7, distance = Some (1 / 4)\<rparr>,
             \<lparr>similar_id = 8, distance = Some (1 / 2)\<rparr>]"
  have tier1: "map idea_id rel1 = [6]" unfolding rel1_def by code_simp
  have tier1': "map idea_id rel3 = [6]" unfolding rel3_def by code_simp
  from tier1 have len1: "length rel1 = 1" by (auto dest: arg_cong [where f = length])
  from tier1' have len3: "length rel3 = 1" by (auto dest: arg_cong [where f = length])
  have tier3: "map idea_id cands3 = [8, 7]"
    unfolding cands3_def tag_ids_def rel3_def by code_simp
  have answer: "search_similar_ideas (ideas_embeddings neighbour_env) (content (row idea))
                  (3 - int (length rel3) + 1) None = Inr sims"
    by (simp add: neighbour_env_def fixed_index_answer len3 sims_def)
  have looked_up:
    "map idea_id (List.map_filter (\<lambda>s. map_option row (get_idea related_db (similar_id s)))
        (take 2 (filter (\<lambda>s. similar_id s \<noteq> 5) sims))) = [7, 8]"
    unfolding sims_def by code_simp
  note first = related_ideas_by_tier
    [where e = related_off_env and i = 5 and limit = 1 and rel = rel1 and remaining = "1 - int (length rel1)"
       and tag_ids = tag_ids and cands = cands1, unfolded dbs, OF idea _ rel1_def refl tag_ids_def cands1_def]
  note second = related_ideas_by_tier
    [where e = neighbour_env and i = 5 and limit = 3 and rel = rel3 and remaining = "3 - int (length rel3)"
       and tag_ids = tag_ids and cands = cands3 and sims = sims, unfolded dbs,
     OF idea _ rel3_def refl tag_ids_def cands3_def]
  note third = related_ideas_by_tier
    [where e = related_off_env and i = 5 and limit = 3 and rel = rel3 and remaining = "3 - int (length rel3)"
       and tag_ids = tag_ids and cands = cands3, unfolded dbs, OF idea _ rel3_def refl tag_ids_def cands3_def]
  from first len1 have "get_related_ideas related_off_env 5 1 = take (nat 1) rel1" by simp
  then have a: "map idea_id (get_related_ideas related_off_env 5 1) = [6]"
    using tier1 len1 by simp
  from second on answer len3
  have "get_related_ideas neighbour_env 5 3
      = rel3 @ List.map_filter (\<lambda>s. map_option row (get_idea related_db (similar_id s)))
                 (take 2 (filter (\<lambda>s. similar_id s \<noteq> 5) sims))"
    by (simp add: dbs)
  then have b: "map idea_id (get_related_ideas neighbour_env 5 3) = [6, 7, 8]"
    using tier1' looked_up by simp
  from third off len3
  have "get_related_ideas related_off_env 5 3 = rel3 @ take 2 cands3" by simp
  then have c: "map idea_id (get_related_ideas related_off_env 5 3) = [6, 8, 7]"
    using tier1' tier3 by (simp add: take_map [symmetric])
  from third have d: "length (get_related_ideas related_off_env 5 3) \<le> 3" by simp
  from a b c d show ?thesis by blast
qed

lemma quiet_env_answers:
  "search_similar_ideas (ideas_embeddings quiet_env) ''a'' 3 None = Inr []"
  by (simp add: quiet_env_def fixed_index_answer)

text \<open>
  C9 as stated fails twice. In \<open>quiet_env\<close> the vector tier succeeds with no neighbour,
  tier 1 holds idea 6 alone, ideas 8 and 7 share tags with idea 5, and the answer for
  \<open>limit = 3\<close> is idea 6 alone: the tag overlap is not consulted. In \<open>recency_env\<close>
  ideas 7 and 8 share one tag each with idea 5; idea 8 was created later, idea 7 was
  updated later, and idea 8 comes first: the second sort key is \<open>created_at\<close>, not
  \<open>updated_at\<close>.
\<close>

theorem tag_overlap_counterexample:
  "search_similar_ideas (ideas_embeddings quiet_env) ''a'' 3 None = Inr []
   \<and> map idea_id (related_from_relations (db quiet_env) 5 3) = [6]
   \<and> map idea_id (tag_candidates (db quiet_env) 5 [1, 2] [6]) = [8, 7]
   \<and> map idea_id (get_related_ideas quiet_env 5 3) = [6]
   \<and> map idea_id (get_related_ideas recency_env 5 2) = [8, 7]
   \<and> map updated_at (get_related_ideas recency_env 5 2) = [4, 9]"
proof -
  have "map idea_id (related_from_relations (db quiet_env) 5 3) = [6]" by code_simp
  moreover have "map idea_id (tag_candidates (db quiet_env) 5 [1, 2] [6]) = [8, 7]" by code_simp
  moreover have "map idea_id (get_related_ideas quiet_env 5 3) = [6]" by code_simp
  moreover have "map idea_id (get_related_ideas recency_env 5 2) = [8, 7]" by code_simp
  moreover have "map updated_at (get_related_ideas recency_env 5 2) = [4, 9]" by code_simp
  ultimately show ?thesis using quiet_env_answers by blast
qed

text \<open>
  C8. The related ideas are specified never to contain an idea twice. Tier 2 drops the
  source idea from the neighbours of the index but not the ideas tier 1 has already
  chosen (tier 3 does exclude them). In \<open>related_env\<close> idea 5 has a curated relation to
  idea 6 and the index reports 5 and 6 as neighbours: the answer for \<open>limit = 2\<close> is
  idea 6 twice.
\<close>

theorem related_ideas_repeat_an_idea:
  "map idea_id (get_related_ideas related_env 5 2) = [6, 6]"
  by code_simp

theorem related_ideas_repeat_an_idea_witness:
  "\<not> distinct (map idea_id (get_related_ideas related_env 5 2))"
  using related_ideas_repeat_an_idea by simp

section \<open>The embedding of the empty text\<close>

text \<open>
  C10, as the code has it. For the empty text \<open>generate_embedding\<close> returns \<open>None\<close>,
  whatever the provider, and raises nothing.
\<close>

theorem generate_embedding_empty_is_none: "generate_embedding ai_service [] = None"
  by (simp add: generate_embedding_def)

text \<open>C10 as stated fails: the result for the empty text is not the zero vector of 1536 entries.\<close>

theorem generate_embedding_empty_counterexample:
  "generate_embedding no_provider [] \<noteq> Some (replicate 1536 0)"
  by (simp add: generate_embedding_def)

end
